theory Spec2Isabelle
  imports Complex_Main "HOL-Library.Word"
begin

section \<open>Header synchronisation session of libbitcoin-node\<close>

text \<open>
  A shallow embedding of \<^verbatim>\<open>src/sessions/session_header_sync.cpp\<close> and of the stop
  signal of \<^verbatim>\<open>console/executor.cpp\<close>. Member variables of the session are the fields
  of a record that every member function takes and returns; the asynchronous callbacks
  that the network layer delivers are read from a script of attempts, one entry per call of
  \<^verbatim>\<open>new_connection\<close>; what the session does to its collaborators (invoking the result
  handler, connecting, attaching protocols, initialising the header queue) is recorded as
  a list of events in the order of the calls. Log statements are not modelled.
\<close>

subsection \<open>Data\<close>

type_synonym size_t = "64 word"
type_synonym uint32_t = "32 word"
type_synonym hash_digest = "256 word"

text \<open>
  The values of \<^verbatim>\<open>code\<close> that the two files use or that a peer can produce. A code
  converts to \<^verbatim>\<open>true\<close> exactly when it is not \<^verbatim>\<open>success\<close>.
\<close>

datatype code =
    success
  | service_stopped
  | operation_failed
  | not_found
  | channel_timeout
  | channel_stopped
  | network_unreachable

definition failed :: "code \<Rightarrow> bool" where
  "failed ec = (ec \<noteq> success)"

text \<open>
  \<^verbatim>\<open>config::checkpoint\<close>: a hash and a height; a default-constructed one is the null
  hash at height zero, and \<^verbatim>\<open>==\<close> compares both members.
\<close>

record checkpoint =
  hash :: hash_digest
  height :: size_t

definition null_checkpoint :: checkpoint where
  "null_checkpoint = \<lparr>hash = 0, height = 0\<rparr>"

text \<open>
  A \<^verbatim>\<open>chain::header\<close> is used only through \<^verbatim>\<open>hash()\<close>, so it is represented by
  the digest that \<^verbatim>\<open>hash()\<close> returns.
\<close>

record header =
  header_hash :: hash_digest

text \<open>
  The three queries of \<^verbatim>\<open>blockchain::fast_chain\<close> that the session makes. Each C++
  query returns \<^verbatim>\<open>bool\<close> and writes its results through reference parameters;
  here \<open>None\<close> is the \<^verbatim>\<open>false\<close> return.
\<close>

record fast_chain =
  get_last_height :: "size_t option"
  get_gap_range :: "(size_t \<times> size_t) option"
  get_header :: "size_t \<Rightarrow> header option"

text \<open>
  Modelled from the spec: \<^verbatim>\<open>header_queue\<close> is not under src/. The spec gives it
  \<^verbatim>\<open>empty()\<close> and \<^verbatim>\<open>initialize(seed)\<close>; the queue is the list of hashes it holds,
  and initialising it leaves the seed's hash as its only entry.
\<close>

type_synonym header_queue = "hash_digest list"

definition hashes_empty :: "header_queue \<Rightarrow> bool" where
  "hashes_empty q = (q = [])"

definition hashes_initialize :: "checkpoint \<Rightarrow> header_queue \<Rightarrow> header_queue" where
  "hashes_initialize seed q = [hash seed]"

text \<open>
  Modelled from the spec: \<^verbatim>\<open>checkpoint::sort\<close> is not under src/. The spec says the
  list is normalised by sorting ascending on height.
\<close>

definition checkpoint_sort :: "checkpoint list \<Rightarrow> checkpoint list" where
  "checkpoint_sort cs = sort_key height cs"

text \<open>
  The member variables of the session; \<open>m_hashes\<close> is \<^verbatim>\<open>hashes_\<close>,
  \<open>m_minimum_rate\<close> is \<^verbatim>\<open>minimum_rate_\<close>, and so on (a name cannot end in
  an underscore here).
\<close>

record session_header_sync =
  m_hashes :: header_queue
  m_minimum_rate :: uint32_t
  m_last :: checkpoint
  m_chain :: fast_chain
  m_checkpoints :: "checkpoint list"

subsection \<open>Range resolution\<close>

text \<open>
  \<^verbatim>\<open>get_range(out_seed, out_stop)\<close>. The two reference parameters are passed in and
  returned, so that what an error return leaves in them is part of the result. Heights are
  \<^verbatim>\<open>size_t\<close>: \<^verbatim>\<open>last_gap + 1\<close> and \<^verbatim>\<open>first_gap - 1\<close> wrap around.
\<close>

definition get_range ::
  "session_header_sync \<Rightarrow> checkpoint \<Rightarrow> checkpoint \<Rightarrow> code \<times> checkpoint \<times> checkpoint" where
  "get_range s out_seed out_stop =
    (case get_last_height (m_chain s) of
       None \<Rightarrow> (operation_failed, out_seed, out_stop)
     | Some tip \<Rightarrow>
        (let (first_height, last_height) =
               (case get_gap_range (m_chain s) of
                  Some (first_gap, last_gap) \<Rightarrow> (first_gap - 1, last_gap + 1)
                | None \<Rightarrow> (tip, tip))
         in case get_header (m_chain s) first_height of
              None \<Rightarrow> (not_found, out_seed, out_stop)
            | Some first_header \<Rightarrow>
               (if m_checkpoints s \<noteq> [] \<and> height (last (m_checkpoints s)) > last_height
                then (success,
                      \<lparr>hash = header_hash first_header, height = first_height\<rparr>,
                      last (m_checkpoints s))
                else if first_height = last_height
                then (success,
                      \<lparr>hash = header_hash first_header, height = first_height\<rparr>,
                      \<lparr>hash = header_hash first_header, height = first_height\<rparr>)
                else (case get_header (m_chain s) last_height of
                        None \<Rightarrow> (not_found, out_seed, out_stop)
                      | Some last_header \<Rightarrow>
                         (success,
                          \<lparr>hash = header_hash first_header, height = first_height\<rparr>,
                          \<lparr>hash = header_hash last_header, height = last_height\<rparr>)))))"

subsection \<open>The minimum rate and its back off\<close>

text \<open>
  \<^verbatim>\<open>back_off_factor\<close> is the \<^verbatim>\<open>float\<close> 0.75 and \<^verbatim>\<open>headers_per_second\<close> the
  \<^verbatim>\<open>uint32_t\<close> 10000. The statement
  \<^verbatim>\<open>minimum_rate_ = static_cast<uint32_t>(minimum_rate_ * back_off_factor)\<close>
  converts the rate to \<^verbatim>\<open>float\<close>, multiplies in \<^verbatim>\<open>float\<close> and truncates the product
  towards zero. A \<^verbatim>\<open>float\<close> has 24 significant bits and each of the two operations rounds
  to the nearest one, ties to even: \<open>round_to_float\<close> is that rounding on a natural
  number. The product of a float \<open>f\<close> with 0.75 is the float nearest to \<open>3 * f / 4\<close>,
  which is \<open>round_to_float (3 * f) / 4\<close> because dividing by four only changes the
  exponent (no value here is near the ends of the exponent range).
\<close>

definition back_off_factor :: real where
  "back_off_factor = 3 / 4"

definition headers_per_second :: uint32_t where
  "headers_per_second = 10000"

fun bit_length :: "nat \<Rightarrow> nat" where
  "bit_length n = (if n = 0 then 0 else Suc (bit_length (n div 2)))"

declare bit_length.simps [simp del]

definition round_to_float :: "nat \<Rightarrow> nat" where
  "round_to_float p =
    (if p < 2 ^ 24 then p
     else let e = bit_length p - 24;
              q = p div 2 ^ e;
              r = p mod 2 ^ e;
              half = 2 ^ (e - 1)
          in (if r > half \<or> (r = half \<and> odd q) then q + 1 else q) * 2 ^ e)"

definition back_off :: "uint32_t \<Rightarrow> uint32_t" where
  "back_off rate = word_of_nat (round_to_float (3 * round_to_float (unat rate)) div 4)"

subsection \<open>The environment of a session\<close>

text \<open>
  A connector is known by its identity only. A channel is used for its negotiated
  version. The protocol levels are those of \<^verbatim>\<open>message::version::level\<close>, which the
  names of the ping protocol classes repeat.
\<close>

type_synonym connector = nat

record channel =
  negotiated_version :: uint32_t

definition level_bip31 :: uint32_t where
  "level_bip31 = 60001"

text \<open>
  What the network layer answers during one call of \<^verbatim>\<open>new_connection\<close>: the value of
  \<^verbatim>\<open>stopped()\<close>, the code and channel that \<^verbatim>\<open>connect\<close> passes to
  \<^verbatim>\<open>handle_connect\<close>, the code that \<^verbatim>\<open>register_channel\<close> passes to
  \<^verbatim>\<open>handle_channel_start\<close> once the handshake is over, and the code that the header
  sync protocol passes to \<^verbatim>\<open>handle_complete\<close>. An answer is read only if the session
  gets that far in the attempt.
\<close>

record attempt =
  att_stopped :: bool
  att_connect :: code
  att_channel :: channel
  att_channel_start :: code
  att_complete :: code

text \<open>The calls that the session makes on its collaborators.\<close>

datatype event =
    Handler code
  | Hashes_initialize checkpoint
  | Create_connector connector
  | Connect connector
  | Register_channel channel
  | Attach_ping_60001 channel
  | Attach_ping_31402 channel
  | Attach_address_31402 channel
  | Attach_header_sync channel uint32_t checkpoint

primrec handler_calls :: "event list \<Rightarrow> code list" where
  "handler_calls [] = []"
| "handler_calls (e # es) =
     (case e of Handler ec \<Rightarrow> ec # handler_calls es | _ \<Rightarrow> handler_calls es)"

primrec connect_calls :: "event list \<Rightarrow> connector list" where
  "connect_calls [] = []"
| "connect_calls (e # es) =
     (case e of Connect c \<Rightarrow> c # connect_calls es | _ \<Rightarrow> connect_calls es)"

text \<open>The minimum rates that the session hands to the header sync protocol, in order.\<close>

primrec attach_rates :: "event list \<Rightarrow> uint32_t list" where
  "attach_rates [] = []"
| "attach_rates (e # es) =
     (case e of Attach_header_sync ch rate target \<Rightarrow> rate # attach_rates es
      | _ \<Rightarrow> attach_rates es)"

subsection \<open>Header sync sequence\<close>

text \<open>
  The five functions call each other as in the source. Where the source hands a callback
  to the network layer, the model calls that callback with the answer of the current
  attempt. With no attempt left the session is not stopped and the network does not answer
  any more: \<^verbatim>\<open>new_connection\<close> has called \<^verbatim>\<open>connect\<close> and the session waits for a
  callback that does not arrive. \<^verbatim>\<open>BITCOIN_ASSERT\<close> in \<^verbatim>\<open>attach_protocols\<close> is a debug
  assertion with no effect in a release build and is left out. What the header sync
  protocol itself does with the queue is not modelled.
\<close>

function new_connection ::
    "connector \<Rightarrow> attempt list \<Rightarrow> session_header_sync \<Rightarrow> event list \<times> session_header_sync"
  and handle_connect ::
    "code \<Rightarrow> channel \<Rightarrow> connector \<Rightarrow> attempt \<Rightarrow> attempt list \<Rightarrow> session_header_sync
      \<Rightarrow> event list \<times> session_header_sync"
  and handle_channel_start ::
    "code \<Rightarrow> connector \<Rightarrow> channel \<Rightarrow> attempt \<Rightarrow> attempt list \<Rightarrow> session_header_sync
      \<Rightarrow> event list \<times> session_header_sync"
  and attach_protocols ::
    "channel \<Rightarrow> connector \<Rightarrow> attempt \<Rightarrow> attempt list \<Rightarrow> session_header_sync
      \<Rightarrow> event list \<times> session_header_sync"
  and handle_complete ::
    "code \<Rightarrow> connector \<Rightarrow> attempt list \<Rightarrow> session_header_sync
      \<Rightarrow> event list \<times> session_header_sync"
where
  "new_connection connect [] s = ([Connect connect], s)"
| "new_connection connect (a # script) s =
    (if att_stopped a then ([], s)
     else case handle_connect (att_connect a) (att_channel a) connect a script s of
            (evs, s') \<Rightarrow> (Connect connect # evs, s'))"
| "handle_connect ec channel connect a script s =
    (if failed ec then new_connection connect script s
     else case handle_channel_start (att_channel_start a) connect channel a script s of
            (evs, s') \<Rightarrow> (Register_channel channel # evs, s'))"
| "handle_channel_start ec connect channel a script s =
    (if failed ec then handle_complete ec connect script s
     else attach_protocols channel connect a script s)"
| "attach_protocols channel connect a script s =
    (case handle_complete (att_complete a) connect script s of
       (evs, s') \<Rightarrow>
         ((if negotiated_version channel \<ge> level_bip31
           then Attach_ping_60001 channel else Attach_ping_31402 channel)
          # Attach_address_31402 channel
          # Attach_header_sync channel (m_minimum_rate s) (m_last s)
          # evs, s'))"
| "handle_complete ec connect script s =
    (if \<not> failed ec then ([Handler ec], s)
     else new_connection connect script
            (s\<lparr>m_minimum_rate := back_off (m_minimum_rate s)\<rparr>))"
  by pat_completeness auto
termination
  by (relation "measure (\<lambda>x. case x of
        Inl (Inl (c, script, s)) \<Rightarrow> 5 * length script
      | Inl (Inr (ec, ch, c, a, script, s)) \<Rightarrow> 5 * length script + 4
      | Inr (Inl (ec, c, ch, a, script, s)) \<Rightarrow> 5 * length script + 3
      | Inr (Inr (Inl (ch, c, a, script, s))) \<Rightarrow> 5 * length script + 2
      | Inr (Inr (Inr (ec, c, script, s))) \<Rightarrow> 5 * length script + 1)") auto

subsection \<open>Start sequence\<close>

text \<open>
  \<^verbatim>\<open>initialize\<close> returns its \<^verbatim>\<open>bool\<close>, the events and the session. The local
  \<^verbatim>\<open>seed\<close> is default-constructed and \<^verbatim>\<open>get_range\<close> writes the stop into the member
  \<^verbatim>\<open>last_\<close>.
\<close>

definition initialize :: "session_header_sync \<Rightarrow> bool \<times> event list \<times> session_header_sync" where
  "initialize s =
    (if \<not> hashes_empty (m_hashes s) then (False, [Handler operation_failed], s)
     else case get_range s null_checkpoint (m_last s) of
       (ec, seed, out_stop) \<Rightarrow>
         (let s1 = s\<lparr>m_last := out_stop\<rparr>
          in if failed ec then (False, [Handler ec], s1)
             else if seed = m_last s1 then (False, [Handler success], s1)
             else (True, [Hashes_initialize seed],
                   s1\<lparr>m_hashes := hashes_initialize seed (m_hashes s1)\<rparr>)))"

text \<open>
  \<^verbatim>\<open>handle_started\<close>; \<open>fresh\<close> is the connector that \<^verbatim>\<open>create_connector()\<close> returns.
  \<^verbatim>\<open>start\<close> passes \<^verbatim>\<open>handle_started\<close> to the start of the base session, which calls it
  with its own result \<open>ec\<close>.
\<close>

definition handle_started ::
  "code \<Rightarrow> connector \<Rightarrow> attempt list \<Rightarrow> session_header_sync \<Rightarrow> event list \<times> session_header_sync" where
  "handle_started ec fresh script s =
    (if failed ec then ([Handler ec], s)
     else case initialize s of
       (ok, evs, s1) \<Rightarrow>
         if \<not> ok then (evs, s1)
         else case new_connection fresh script s1 of
           (evs', s2) \<Rightarrow> (evs @ Create_connector fresh # evs', s2))"

definition start ::
  "code \<Rightarrow> connector \<Rightarrow> attempt list \<Rightarrow> session_header_sync \<Rightarrow> event list \<times> session_header_sync" where
  "start ec fresh script s = handle_started ec fresh script s"

text \<open>The constructor: the rate starts at \<^verbatim>\<open>headers_per_second\<close>, the checkpoints are sorted.\<close>

definition session_header_sync_ctor ::
  "header_queue \<Rightarrow> fast_chain \<Rightarrow> checkpoint list \<Rightarrow> session_header_sync" where
  "session_header_sync_ctor hashes blockchain checkpoints =
    \<lparr>m_hashes = hashes, m_minimum_rate = headers_per_second, m_last = null_checkpoint,
     m_chain = blockchain, m_checkpoints = checkpoint_sort checkpoints\<rparr>"

subsection \<open>The stop signal of the executor\<close>

text \<open>
  The static \<^verbatim>\<open>std::promise<code> stopping_\<close> and the function-local static
  \<^verbatim>\<open>std::once_flag stop_mutex\<close>. \<^verbatim>\<open>std::call_once\<close> runs its function for the first
  caller only and makes concurrent callers wait for that run, so the calls of \<^verbatim>\<open>stop\<close>
  take effect in some order, one after the other. \<open>wait\<close> is
  \<^verbatim>\<open>stopping_.get_future().wait()\<close>: \<open>None\<close> while it blocks, the value once set.
\<close>

record executor =
  stop_mutex :: bool
  stopping :: "code option"

definition executor_initial :: executor where
  "executor_initial = \<lparr>stop_mutex = False, stopping = None\<rparr>"

definition stop :: "code \<Rightarrow> executor \<Rightarrow> executor" where
  "stop ec e = (if stop_mutex e then e else e\<lparr>stop_mutex := True, stopping := Some ec\<rparr>)"

definition wait :: "executor \<Rightarrow> code option" where
  "wait e = stopping e"

definition initialize_stop :: int where
  "initialize_stop = 0"

definition handle_stop :: "int \<Rightarrow> executor \<Rightarrow> executor" where
  "handle_stop signal_code e = (if signal_code = initialize_stop then e else stop success e)"

definition executor_handle_started :: "code \<Rightarrow> executor \<Rightarrow> executor" where
  "executor_handle_started ec e = (if failed ec then stop ec e else e)"

definition handle_running :: "code \<Rightarrow> executor \<Rightarrow> executor" where
  "handle_running ec e = (if failed ec then stop ec e else e)"

definition handle_stopped :: "code \<Rightarrow> executor \<Rightarrow> executor" where
  "handle_stopped ec e = stop ec e"

subsection \<open>Notions used in the statements\<close>

text \<open>
  The working bounds \<^verbatim>\<open>(first_height, last_height)\<close> that \<^verbatim>\<open>get_range\<close> computes from
  the last height and the gap, and its test for taking the highest checkpoint as the stop.
  Lemma \<open>get_range_bounds\<close> below shows that \<open>get_range\<close> is made of these.
\<close>

definition range_bounds :: "fast_chain \<Rightarrow> size_t \<Rightarrow> size_t \<times> size_t" where
  "range_bounds chain tip =
    (case get_gap_range chain of
       Some (first_gap, last_gap) \<Rightarrow> (first_gap - 1, last_gap + 1)
     | None \<Rightarrow> (tip, tip))"

definition overrides :: "session_header_sync \<Rightarrow> size_t \<Rightarrow> bool" where
  "overrides s last_height =
    (m_checkpoints s \<noteq> [] \<and> height (last (m_checkpoints s)) > last_height)"

text \<open>
  Modelled from the spec: the chain reader behind \<^verbatim>\<open>fast_chain\<close> is not under src/. The
  spec describes its last height as the height of the current tip, its header query as a
  lookup in the stored chain, and a gap as a region of missing contiguous headers below
  the current tip. So a reader holds no header above its last height, a gap that it
  reports is a range \<open>first_gap \<le> last_gap\<close> below the last height, and the last height
  is not the largest value of \<^verbatim>\<open>size_t\<close> (which is \<open>- 1\<close> as a word).
\<close>

definition reader_consistent :: "fast_chain \<Rightarrow> bool" where
  "reader_consistent chain =
    (case get_last_height chain of
       None \<Rightarrow> True
     | Some tip \<Rightarrow>
         tip < - 1 \<and>
         (\<forall>h. get_header chain h \<noteq> None \<longrightarrow> h \<le> tip) \<and>
         (case get_gap_range chain of
            None \<Rightarrow> True
          | Some (first_gap, last_gap) \<Rightarrow> first_gap \<le> last_gap \<and> last_gap < tip))"

text \<open>
  How an attempt ends: it succeeds when nothing stops it and every stage reports
  \<^verbatim>\<open>success\<close>; it fails when it is not stopped and the connect, the channel start or
  the download reports a failure; it is a failed download when the first two stages
  succeed and the download fails.
\<close>

definition attempt_succeeds :: "attempt \<Rightarrow> bool" where
  "attempt_succeeds a =
    (\<not> att_stopped a \<and> \<not> failed (att_connect a) \<and> \<not> failed (att_channel_start a)
      \<and> \<not> failed (att_complete a))"

definition attempt_fails :: "attempt \<Rightarrow> bool" where
  "attempt_fails a =
    (\<not> att_stopped a \<and>
      (failed (att_connect a) \<or> failed (att_channel_start a) \<or> failed (att_complete a)))"

definition download_fails :: "attempt \<Rightarrow> bool" where
  "download_fails a =
    (\<not> att_stopped a \<and> \<not> failed (att_connect a) \<and> \<not> failed (att_channel_start a)
      \<and> failed (att_complete a))"

text \<open>The minimum rate after \<open>k\<close> executions of the back off statement of \<^verbatim>\<open>handle_complete\<close>.\<close>

definition rate_after :: "nat \<Rightarrow> uint32_t" where
  "rate_after k = (back_off ^^ k) headers_per_second"

text \<open>The back off statement as a step on the session, and the three attachments of
  \<^verbatim>\<open>attach_protocols\<close> as a list.\<close>

definition decay :: "session_header_sync \<Rightarrow> session_header_sync" where
  "decay s = s\<lparr>m_minimum_rate := back_off (m_minimum_rate s)\<rparr>"

definition attach_events :: "channel \<Rightarrow> session_header_sync \<Rightarrow> event list" where
  "attach_events channel s =
    [if negotiated_version channel \<ge> level_bip31
     then Attach_ping_60001 channel else Attach_ping_31402 channel,
     Attach_address_31402 channel,
     Attach_header_sync channel (m_minimum_rate s) (m_last s)]"

subsection \<open>Example inputs\<close>

definition example_channel :: channel where
  "example_channel = \<lparr>negotiated_version = 70002\<rparr>"

definition download_success :: attempt where
  "download_success =
    \<lparr>att_stopped = False, att_connect = success, att_channel = example_channel,
     att_channel_start = success, att_complete = success\<rparr>"

definition download_failure :: attempt where
  "download_failure = download_success\<lparr>att_complete := channel_timeout\<rparr>"

definition connect_failure :: attempt where
  "connect_failure = download_success\<lparr>att_connect := network_unreachable\<rparr>"

text \<open>A chain with the tip at 30 and the gap 10 to 20; the headers next to the gap exist.\<close>

definition gap_chain :: fast_chain where
  "gap_chain =
    \<lparr>get_last_height = Some 30, get_gap_range = Some (10, 20),
     get_header = (\<lambda>h. if h = 9 then Some \<lparr>header_hash = 1009\<rparr>
                        else if h = 21 then Some \<lparr>header_hash = 1021\<rparr>
                        else if h = 30 then Some \<lparr>header_hash = 1030\<rparr> else None)\<rparr>"

text \<open>A chain with the tip at 100 and no gap.\<close>

definition tip_chain :: fast_chain where
  "tip_chain =
    \<lparr>get_last_height = Some 100, get_gap_range = None,
     get_header = (\<lambda>h. if h = 100 then Some \<lparr>header_hash = 1100\<rparr> else None)\<rparr>"

text \<open>A chain that holds the genesis header only.\<close>

definition genesis_chain :: fast_chain where
  "genesis_chain =
    \<lparr>get_last_height = Some 0, get_gap_range = None,
     get_header = (\<lambda>h. if h = 0 then Some \<lparr>header_hash = 1000\<rparr> else None)\<rparr>"

text \<open>A chain whose last height cannot be read.\<close>

definition unreadable_chain :: fast_chain where
  "unreadable_chain =
    \<lparr>get_last_height = None, get_gap_range = None, get_header = (\<lambda>h. None)\<rparr>"

text \<open>A chain with the tip at 30 whose headers 0 to 5 are missing.\<close>

definition headless_chain :: fast_chain where
  "headless_chain =
    \<lparr>get_last_height = Some 30, get_gap_range = Some (0, 5),
     get_header = (\<lambda>h. if 6 \<le> h \<and> h \<le> 30 then Some \<lparr>header_hash = 2000\<rparr> else None)\<rparr>"

section \<open>Properties\<close>

subsection \<open>Range resolution\<close>

lemma get_range_bounds:
  "get_range s a b =
    (case get_last_height (m_chain s) of
       None \<Rightarrow> (operation_failed, a, b)
     | Some tip \<Rightarrow>
        (case range_bounds (m_chain s) tip of (fh, lh) \<Rightarrow>
           (case get_header (m_chain s) fh of
              None \<Rightarrow> (not_found, a, b)
            | Some first_header \<Rightarrow>
               (if overrides s lh
                then (success, \<lparr>hash = header_hash first_header, height = fh\<rparr>,
                      last (m_checkpoints s))
                else case get_header (m_chain s) lh of
                       None \<Rightarrow> (not_found, a, b)
                     | Some last_header \<Rightarrow>
                        (success, \<lparr>hash = header_hash first_header, height = fh\<rparr>,
                         \<lparr>hash = header_hash last_header, height = lh\<rparr>)))))"
proof (cases "get_last_height (m_chain s)")
  case None
  then show ?thesis by (simp add: get_range_def)
next
  case (Some tip)
  obtain fh lh where b: "range_bounds (m_chain s) tip = (fh, lh)"
    by (cases "range_bounds (m_chain s) tip")
  have "get_range s a b =
     (case get_header (m_chain s) fh of
        None \<Rightarrow> (not_found, a, b)
      | Some first_header \<Rightarrow>
         (if overrides s lh
          then (success, \<lparr>hash = header_hash first_header, height = fh\<rparr>,
                last (m_checkpoints s))
          else if fh = lh
          then (success, \<lparr>hash = header_hash first_header, height = fh\<rparr>,
                \<lparr>hash = header_hash first_header, height = fh\<rparr>)
          else case get_header (m_chain s) lh of
                 None \<Rightarrow> (not_found, a, b)
               | Some last_header \<Rightarrow>
                  (success, \<lparr>hash = header_hash first_header, height = fh\<rparr>,
                   \<lparr>hash = header_hash last_header, height = lh\<rparr>)))"
    using Some b [unfolded range_bounds_def]
    by (simp add: get_range_def overrides_def cong: option.case_cong)
  also have "\<dots> =
     (case get_header (m_chain s) fh of
        None \<Rightarrow> (not_found, a, b)
      | Some first_header \<Rightarrow>
         (if overrides s lh
          then (success, \<lparr>hash = header_hash first_header, height = fh\<rparr>,
                last (m_checkpoints s))
          else case get_header (m_chain s) lh of
                 None \<Rightarrow> (not_found, a, b)
               | Some last_header \<Rightarrow>
                  (success, \<lparr>hash = header_hash first_header, height = fh\<rparr>,
                   \<lparr>hash = header_hash last_header, height = lh\<rparr>)))"
    by (cases "fh = lh") (auto split: option.splits)
  finally show ?thesis
    by (simp add: Some b)
qed

lemma get_range_success:
  "get_range s a b = (success, seed, out_stop) \<longleftrightarrow>
    (\<exists>tip fh lh first_header.
       get_last_height (m_chain s) = Some tip \<and>
       range_bounds (m_chain s) tip = (fh, lh) \<and>
       get_header (m_chain s) fh = Some first_header \<and>
       seed = \<lparr>hash = header_hash first_header, height = fh\<rparr> \<and>
       (if overrides s lh then out_stop = last (m_checkpoints s)
        else \<exists>last_header. get_header (m_chain s) lh = Some last_header \<and>
               out_stop = \<lparr>hash = header_hash last_header, height = lh\<rparr>))"
  unfolding get_range_bounds
  by (auto split: option.splits prod.splits)

lemma gap_well_formed:
  fixes first_gap last_gap :: size_t
  assumes "0 < first_gap" and "first_gap \<le> last_gap" and "last_gap < - 1"
  shows "first_gap - 1 \<le> last_gap + 1"
  using assms by unat_arith

subsection \<open>The retry loop\<close>

lemma handler_calls_append [simp]:
  "handler_calls (xs @ ys) = handler_calls xs @ handler_calls ys"
  by (induction xs) (auto split: event.splits)

lemma connect_calls_append [simp]:
  "connect_calls (xs @ ys) = connect_calls xs @ connect_calls ys"
  by (induction xs) (auto split: event.splits)

lemma handler_calls_attach [simp]: "handler_calls (attach_events ch s) = []"
  by (simp add: attach_events_def)

lemma connect_calls_attach [simp]: "connect_calls (attach_events ch s) = []"
  by (simp add: attach_events_def)

lemma handle_complete_eq:
  "handle_complete ec c script s =
    (if failed ec then new_connection c script (decay s) else ([Handler ec], s))"
  by (simp add: decay_def)

text \<open>One attempt, with the calls between the five functions unfolded.\<close>

lemma new_connection_step:
  "new_connection c (a # script) s =
    (if att_stopped a then ([], s)
     else if failed (att_connect a)
     then (case new_connection c script s of (evs, s') \<Rightarrow> (Connect c # evs, s'))
     else if failed (att_channel_start a)
     then (case new_connection c script (decay s) of
             (evs, s') \<Rightarrow> (Connect c # Register_channel (att_channel a) # evs, s'))
     else if failed (att_complete a)
     then (case new_connection c script (decay s) of
             (evs, s') \<Rightarrow>
               (Connect c # Register_channel (att_channel a)
                  # attach_events (att_channel a) s @ evs, s'))
     else (Connect c # Register_channel (att_channel a)
             # attach_events (att_channel a) s @ [Handler success], s))"
  by (simp add: decay_def attach_events_def failed_def split: prod.splits)

declare new_connection.simps(2) [simp del]
declare handle_connect.simps [simp del]
declare handle_channel_start.simps [simp del]
declare attach_protocols.simps [simp del]
declare handle_complete.simps [simp del]

lemma new_connection_calls:
  "set (handler_calls (fst (new_connection c script s))) \<subseteq> {success} \<and>
   length (handler_calls (fst (new_connection c script s))) \<le> 1 \<and>
   set (connect_calls (fst (new_connection c script s))) \<subseteq> {c}"
proof (induction script arbitrary: s)
  case Nil
  show ?case by simp
next
  case (Cons a script)
  from Cons [of s] Cons [of "decay s"] show ?case
    by (auto simp add: new_connection_step split: prod.splits)
qed

lemma new_connection_fails:
  assumes "\<forall>a \<in> set fails. attempt_fails a" and "attempt_succeeds ok"
  shows "handler_calls (fst (new_connection c (fails @ ok # rest) s)) = [success] \<and>
     connect_calls (fst (new_connection c (fails @ ok # rest) s)) = replicate (length fails + 1) c \<and>
     last (fst (new_connection c (fails @ ok # rest) s)) = Handler success"
  using assms(1)
proof (induction fails arbitrary: s)
  case Nil
  with assms(2) show ?case
    by (simp add: new_connection_step attempt_succeeds_def)
next
  case (Cons a fails)
  then have a: "attempt_fails a" and rest: "\<forall>a \<in> set fails. attempt_fails a" by simp_all
  have ne: "fst (new_connection c (fails @ ok # rest) s') \<noteq> []" for s'
    using Cons.IH [OF rest, of s'] by auto
  from Cons.IH [OF rest, of s] Cons.IH [OF rest, of "decay s"] a ne [of s] ne [of "decay s"]
  show ?case
    by (auto simp add: new_connection_step attempt_fails_def split: prod.splits)
qed

lemma initialize_True:
  assumes "initialize s = (True, evs, s1)"
  shows "\<exists>seed. evs = [Hashes_initialize seed]"
  using assms
  by (auto simp: initialize_def Let_def split: if_splits prod.splits)

subsection \<open>The minimum rate\<close>

text \<open>
  Below \<open>2 ^ 22\<close> neither the conversion to \<^verbatim>\<open>float\<close> nor the product rounds, and the
  statement computes three quarters of the rate, rounded down. The rate of a session
  starts at 10000 and stays in this range. For every 32-bit rate the rounding adds less
  than one part in \<open>2 ^ 23\<close>, so the statement never raises the rate and lowers every
  rate but 0.
\<close>

lemma back_off_small:
  assumes "unat rate < 2 ^ 22"
  shows "unat (back_off rate) = 3 * unat rate div 4"
proof -
  have 1: "round_to_float (unat rate) = unat rate"
    using assms by (simp add: round_to_float_def)
  have 2: "round_to_float (3 * unat rate) = 3 * unat rate"
    using assms by (simp add: round_to_float_def)
  have 3: "3 * unat rate div 4 < 2 ^ 32"
    using assms by simp
  show ?thesis
    unfolding back_off_def 1 2 using 3 by (simp add: unat_of_nat)
qed

lemma back_off_floor:
  assumes "rate \<le> headers_per_second"
  shows "int (unat (back_off rate)) = \<lfloor>real (unat rate) * back_off_factor\<rfloor>"
proof -
  from assms have "unat rate \<le> 10000"
    by (simp add: word_le_nat_alt headers_per_second_def)
  then have "unat rate < 2 ^ 22" by simp
  then have "unat (back_off rate) = 3 * unat rate div 4"
    by (rule back_off_small)
  moreover have "\<lfloor>real (3 * unat rate) / real 4\<rfloor> = int (3 * unat rate div 4)"
    by (rule floor_divide_of_nat_eq)
  ultimately show ?thesis
    by (simp add: back_off_factor_def mult.commute)
qed

lemma bit_length_bounds:
  "n < 2 ^ bit_length n \<and> (0 < n \<longrightarrow> 2 ^ (bit_length n - 1) \<le> n)"
proof (induction n rule: bit_length.induct)
  case (1 n)
  show ?case
  proof (cases "n = 0")
    case True
    then show ?thesis by (simp add: bit_length.simps)
  next
    case n: False
    with 1 have IH: "n div 2 < 2 ^ bit_length (n div 2)"
      "0 < n div 2 \<longrightarrow> 2 ^ (bit_length (n div 2) - 1) \<le> n div 2" by simp_all
    from IH(1) have "n < 2 * 2 ^ bit_length (n div 2)" by linarith
    with n have upper: "n < 2 ^ bit_length n" by (simp add: bit_length.simps [of n])
    have lower: "2 ^ (bit_length n - 1) \<le> n"
    proof (cases "n div 2 = 0")
      case True
      with n show ?thesis by (simp add: bit_length.simps [of n] bit_length.simps [of 0])
    next
      case False
      with IH(2) have le: "2 ^ (bit_length (n div 2) - 1) \<le> n div 2" by simp
      from False have "bit_length (n div 2) \<noteq> 0" by (simp add: bit_length.simps [of "n div 2"])
      then obtain m where m: "bit_length (n div 2) = Suc m" by (cases "bit_length (n div 2)") auto
      from le m have "2 * 2 ^ m \<le> n" by simp
      with n m show ?thesis by (simp add: bit_length.simps [of n])
    qed
    from upper lower show ?thesis by simp
  qed
qed

lemma round_to_float_le: "round_to_float p \<le> p + p div 2 ^ 23"
proof (cases "p < 2 ^ 24")
  case True
  then show ?thesis by (simp add: round_to_float_def)
next
  case False
  define e where "e = bit_length p - 24"
  have bl: "24 < bit_length p"
  proof (rule ccontr)
    assume "\<not> 24 < bit_length p"
    then have "(2::nat) ^ bit_length p \<le> 2 ^ 24"
      by (intro power_increasing) simp_all
    with False bit_length_bounds [of p] show False by linarith
  qed
  from False have "0 < p" by simp
  then have "2 ^ (bit_length p - 1) \<le> p" using bit_length_bounds [of p] by simp
  moreover have "bit_length p - 1 = e + 23" using bl by (simp add: e_def)
  ultimately have "2 ^ e * 2 ^ 23 \<le> p" by (simp add: power_add)
  then have pe: "2 ^ e \<le> p div 2 ^ 23"
    by (simp add: less_eq_div_iff_mult_less_eq)
  have "p div 2 ^ e * 2 ^ e \<le> p" by simp
  then have "(p div 2 ^ e + 1) * 2 ^ e \<le> p + 2 ^ e"
    by (simp add: algebra_simps)
  moreover have "round_to_float p \<le> (p div 2 ^ e + 1) * 2 ^ e"
    using False by (simp add: round_to_float_def Let_def e_def)
  ultimately show ?thesis using pe by linarith
qed

lemma back_off_le:
  shows "back_off rate \<le> rate" and "0 < rate \<Longrightarrow> back_off rate < rate"
proof -
  define r where "r = unat rate"
  define f where "f = round_to_float r"
  define g where "g = round_to_float (3 * f)"
  have r: "r < 2 ^ 32" using unsigned_less [of rate, where ?'a = nat] by (simp add: r_def)
  have f: "f \<le> r + r div 2 ^ 23" unfolding f_def by (rule round_to_float_le)
  have g: "g \<le> 3 * f + 3 * f div 2 ^ 23" unfolding g_def by (rule round_to_float_le)
  from r f g have le: "g div 4 \<le> r" by simp
  from r f g have lt: "g div 4 < r" if "0 < r" using that by simp
  from le r have "g div 4 < 2 ^ 32" by linarith
  then have u: "unat (back_off rate) = g div 4"
    by (simp add: back_off_def g_def f_def r_def unat_of_nat)
  show "back_off rate \<le> rate"
    using u le by (simp add: word_le_nat_alt r_def)
  show "back_off rate < rate" if "0 < rate"
  proof -
    from that have "0 < r" by (simp add: word_less_nat_alt r_def)
    then show ?thesis using u lt by (simp add: word_less_nat_alt r_def)
  qed
qed

lemma rate_after_small: "unat (rate_after k) < 2 ^ 22"
proof (induction k)
  case 0
  show ?case by (simp add: rate_after_def headers_per_second_def)
next
  case (Suc k)
  then show ?case
    using back_off_small [of "rate_after k"] by (simp add: rate_after_def)
qed

lemma rate_after_Suc: "unat (rate_after (Suc k)) = 3 * unat (rate_after k) div 4"
  using back_off_small [OF rate_after_small [of k]] by (simp add: rate_after_def)

lemma rate_after_bound:
  "real (unat (rate_after k)) \<le> real (unat headers_per_second) * back_off_factor ^ k"
proof (induction k)
  case 0
  show ?case by (simp add: rate_after_def)
next
  case (Suc k)
  have "real (unat (rate_after (Suc k))) = real (3 * unat (rate_after k) div 4)"
    by (simp only: rate_after_Suc)
  also have "\<dots> \<le> real (3 * unat (rate_after k)) / real 4"
    by (rule of_nat_div_le_of_nat)
  also have "\<dots> = real (unat (rate_after k)) * back_off_factor"
    by (simp add: back_off_factor_def)
  also have "\<dots> \<le> (real (unat headers_per_second) * back_off_factor ^ k) * back_off_factor"
    using Suc by (simp add: back_off_factor_def)
  finally show ?case by (simp add: mult_ac)
qed

lemma new_connection_download_fails:
  assumes "\<forall>a \<in> set script. download_fails a"
  shows "m_minimum_rate (snd (new_connection c script s)) =
     (back_off ^^ length script) (m_minimum_rate s)"
  using assms
proof (induction script arbitrary: s)
  case Nil
  show ?case by simp
next
  case (Cons a script)
  then have a: "download_fails a" and rest: "\<forall>a \<in> set script. download_fails a" by simp_all
  have "new_connection c (a # script) s =
      (Connect c # Register_channel (att_channel a)
         # attach_events (att_channel a) s @ fst (new_connection c script (decay s)),
       snd (new_connection c script (decay s)))"
    using a by (simp add: new_connection_step download_fails_def split: prod.splits)
  then show ?case
    using Cons.IH [OF rest, of "decay s"]
    by (simp add: decay_def funpow_swap1)
qed

lemma new_connection_rate_le:
  "m_minimum_rate (snd (new_connection c script s)) \<le> m_minimum_rate s"
proof (induction script arbitrary: s)
  case Nil
  show ?case by simp
next
  case (Cons a script)
  have d: "m_minimum_rate (decay s) \<le> m_minimum_rate s"
    using back_off_le(1) [of "m_minimum_rate s"] by (simp add: decay_def)
  from Cons [of s] Cons [of "decay s"] d show ?case
    by (auto simp add: new_connection_step split: prod.splits)
qed

lemma initialize_rate:
  "m_minimum_rate (snd (snd (initialize s))) = m_minimum_rate s"
  by (simp add: initialize_def Let_def split: prod.splits)

lemma start_rate_le:
  "m_minimum_rate (snd (start ec fresh script s)) \<le> m_minimum_rate s"
proof -
  obtain ok evs s1 where i: "initialize s = (ok, evs, s1)"
    by (cases "initialize s")
  have r: "m_minimum_rate s1 = m_minimum_rate s"
    using initialize_rate [of s] by (simp add: i)
  show ?thesis
    using new_connection_rate_le [of fresh script s1]
    by (auto simp add: start_def handle_started_def i r split: prod.splits)
qed

lemma attach_rates_append [simp]:
  "attach_rates (xs @ ys) = attach_rates xs @ attach_rates ys"
  by (induction xs) (auto split: event.splits)

lemma attach_rates_attach [simp]:
  "attach_rates (attach_events ch s) = [m_minimum_rate s]"
  by (simp add: attach_events_def)

lemma new_connection_attach_rates:
  "sorted (rev (attach_rates (fst (new_connection c script s)))) \<and>
   (\<forall>r \<in> set (attach_rates (fst (new_connection c script s))). r \<le> m_minimum_rate s)"
proof (induction script arbitrary: s)
  case Nil
  show ?case by simp
next
  case (Cons a script)
  have d: "m_minimum_rate (decay s) \<le> m_minimum_rate s"
    using back_off_le(1) [of "m_minimum_rate s"] by (simp add: decay_def)
  have b: "\<forall>r \<in> set (attach_rates (fst (new_connection c script (decay s)))). r \<le> m_minimum_rate s"
    using Cons [of "decay s"] d by auto
  from Cons [of s] Cons [of "decay s"] b show ?case
    by (auto simp add: new_connection_step sorted_append split: prod.splits)
qed

subsection \<open>The sorted checkpoints\<close>

lemma sorted_last_max:
  "sorted (map f xs) \<Longrightarrow> x \<in> set xs \<Longrightarrow> f x \<le> f (last xs)"
  by (induction xs) auto

lemma checkpoint_sort_last:
  assumes "checkpoints \<noteq> []"
  shows "last (checkpoint_sort checkpoints) \<in> set checkpoints"
    and "c \<in> set checkpoints \<Longrightarrow> height c \<le> height (last (checkpoint_sort checkpoints))"
proof -
  have "length (checkpoint_sort checkpoints) = length checkpoints"
    by (simp add: checkpoint_sort_def)
  with assms have ne: "checkpoint_sort checkpoints \<noteq> []"
    by auto
  then have "last (checkpoint_sort checkpoints) \<in> set (checkpoint_sort checkpoints)"
    by (rule last_in_set)
  then show "last (checkpoint_sort checkpoints) \<in> set checkpoints"
    by (simp add: checkpoint_sort_def)
  show "height c \<le> height (last (checkpoint_sort checkpoints))" if "c \<in> set checkpoints"
    using that sorted_last_max [of height "checkpoint_sort checkpoints" c]
    by (simp add: checkpoint_sort_def)
qed

section \<open>The claims about range resolution\<close>

text \<open>
  Claim C10. Whenever \<^verbatim>\<open>get_range\<close> returns an error code (\<^verbatim>\<open>operation_failed\<close> when
  the last height cannot be read, \<^verbatim>\<open>not_found\<close> when a boundary header is absent), the
  two reference parameters \<^verbatim>\<open>out_seed\<close> and \<^verbatim>\<open>out_stop\<close> hold what they held
  before the call: both are assigned on the success path only.
\<close>

theorem get_range_error_keeps_outputs:
  "fst (get_range s out_seed out_stop) \<noteq> success \<Longrightarrow>
   get_range s out_seed out_stop = (fst (get_range s out_seed out_stop), out_seed, out_stop)"
  unfolding get_range_bounds
  by (auto split: option.splits prod.splits)

text \<open>
  The last height of the first chain cannot be read; the second chain reports the gap
  10 to 21 and has no header at 22.
\<close>

theorem get_range_error_keeps_outputs_witness:
  "fst (get_range (session_header_sync_ctor [] unreadable_chain []) \<lparr>hash = 1, height = 2\<rparr> \<lparr>hash = 3, height = 4\<rparr>)
     \<noteq> success \<and>
   get_range (session_header_sync_ctor [] unreadable_chain []) \<lparr>hash = 1, height = 2\<rparr> \<lparr>hash = 3, height = 4\<rparr>
     = (operation_failed, \<lparr>hash = 1, height = 2\<rparr>, \<lparr>hash = 3, height = 4\<rparr>) \<and>
   fst (get_range (session_header_sync_ctor [] (gap_chain\<lparr>get_gap_range := Some (10, 21)\<rparr>) [])
          \<lparr>hash = 1, height = 2\<rparr> \<lparr>hash = 3, height = 4\<rparr>) \<noteq> success \<and>
   get_range (session_header_sync_ctor [] (gap_chain\<lparr>get_gap_range := Some (10, 21)\<rparr>) [])
     \<lparr>hash = 1, height = 2\<rparr> \<lparr>hash = 3, height = 4\<rparr>
     = (not_found, \<lparr>hash = 1, height = 2\<rparr>, \<lparr>hash = 3, height = 4\<rparr>)"
proof -
  let ?a = "\<lparr>hash = 1, height = 2\<rparr> :: checkpoint"
  let ?b = "\<lparr>hash = 3, height = 4\<rparr> :: checkpoint"
  let ?s = "session_header_sync_ctor [] unreadable_chain []"
  let ?t = "session_header_sync_ctor [] (gap_chain\<lparr>get_gap_range := Some (10, 21)\<rparr>) []"
  have 1: "fst (get_range ?s ?a ?b) = operation_failed"
    by (simp add: get_range_def session_header_sync_ctor_def unreadable_chain_def)
  have 2: "fst (get_range ?t ?a ?b) = not_found"
    by (simp add: get_range_def session_header_sync_ctor_def gap_chain_def checkpoint_sort_def)
  show ?thesis
    using get_range_error_keeps_outputs [of ?s ?a ?b] get_range_error_keeps_outputs [of ?t ?a ?b]
    by (simp add: 1 2)
qed

text \<open>
  Claim C4. When the chain reports a gap \<open>(first_gap, last_gap)\<close> and no checkpoint
  overrides, \<^verbatim>\<open>get_range\<close> works with \<open>first_height = first_gap - 1\<close> and
  \<open>last_height = last_gap + 1\<close>: it succeeds exactly when the headers at these two
  heights exist, the seed is the header at \<open>first_height\<close> and the stop the header at
  \<open>last_height\<close>. With the gap 10 to 20 below a tip at 30 the seed has height 9 and
  the stop height 21.
\<close>

theorem gap_bounds:
  assumes "get_last_height (m_chain s) = Some tip"
    and "get_gap_range (m_chain s) = Some (first_gap, last_gap)"
  shows "(get_range s a b = (success, seed, out_stop) \<longrightarrow>
          (\<exists>first_header.
             get_header (m_chain s) (first_gap - 1) = Some first_header \<and>
             seed = \<lparr>hash = header_hash first_header, height = first_gap - 1\<rparr>))
     \<and> (m_checkpoints s = [] \<or> \<not> height (last (m_checkpoints s)) > last_gap + 1 \<longrightarrow>
          (get_range s a b = (success, seed, out_stop) \<longleftrightarrow>
            (\<exists>first_header last_header.
               get_header (m_chain s) (first_gap - 1) = Some first_header \<and>
               get_header (m_chain s) (last_gap + 1) = Some last_header \<and>
               seed = \<lparr>hash = header_hash first_header, height = first_gap - 1\<rparr> \<and>
               out_stop = \<lparr>hash = header_hash last_header, height = last_gap + 1\<rparr>)))
     \<and> (tip = 30 \<and> first_gap = 10 \<and> last_gap = 20 \<and>
          (m_checkpoints s = [] \<or> \<not> height (last (m_checkpoints s)) > 21) \<and>
          get_range s a b = (success, seed, out_stop)
          \<longrightarrow> height seed = 9 \<and> height out_stop = 21)"
proof -
  have b: "range_bounds (m_chain s) tip = (first_gap - 1, last_gap + 1)"
    using assms(2) by (simp add: range_bounds_def)
  have o: "overrides s (last_gap + 1) \<longleftrightarrow>
      \<not> (m_checkpoints s = [] \<or> \<not> height (last (m_checkpoints s)) > last_gap + 1)"
    by (auto simp: overrides_def)
  show ?thesis
    unfolding get_range_success using assms(1) o b by auto
qed

theorem gap_bounds_witness:
  "get_last_height (m_chain (session_header_sync_ctor [] gap_chain [])) = Some 30 \<and>
   get_gap_range (m_chain (session_header_sync_ctor [] gap_chain [])) = Some (10, 20) \<and>
   m_checkpoints (session_header_sync_ctor [] gap_chain []) = [] \<and>
   get_range (session_header_sync_ctor [] gap_chain []) null_checkpoint null_checkpoint
     = (success, \<lparr>hash = 1009, height = 9\<rparr>, \<lparr>hash = 1021, height = 21\<rparr>) \<and>
   height (fst (snd (get_range (session_header_sync_ctor [] gap_chain []) null_checkpoint null_checkpoint))) = 9 \<and>
   height (snd (snd (get_range (session_header_sync_ctor [] gap_chain []) null_checkpoint null_checkpoint))) = 21"
proof -
  let ?s = "session_header_sync_ctor [] gap_chain []"
  have 1: "get_last_height (m_chain ?s) = Some 30"
    by (simp add: session_header_sync_ctor_def gap_chain_def)
  have 2: "get_gap_range (m_chain ?s) = Some (10, 20)"
    by (simp add: session_header_sync_ctor_def gap_chain_def)
  have 3: "m_checkpoints ?s = []"
    by (simp add: session_header_sync_ctor_def checkpoint_sort_def)
  have 4: "get_header (m_chain ?s) (10 - 1) = Some \<lparr>header_hash = 1009\<rparr>"
    by (simp add: session_header_sync_ctor_def gap_chain_def)
  have 5: "get_header (m_chain ?s) (20 + 1) = Some \<lparr>header_hash = 1021\<rparr>"
    by (simp add: session_header_sync_ctor_def gap_chain_def)
  have 6: "get_range ?s null_checkpoint null_checkpoint
     = (success, \<lparr>hash = 1009, height = 9\<rparr>, \<lparr>hash = 1021, height = 21\<rparr>)"
    using gap_bounds [OF 1 2, of null_checkpoint null_checkpoint
        "\<lparr>hash = 1009, height = 9\<rparr>" "\<lparr>hash = 1021, height = 21\<rparr>"] 3 4 5
    by simp
  show ?thesis
    using 1 2 6 by (simp add: session_header_sync_ctor_def checkpoint_sort_def)
qed

text \<open>
  Claim C3, as amended. The session keeps the checkpoints that the constructor sorted, so
  the last of them is a checkpoint of the configured list with the greatest height: the
  highest checkpoint. The comparison that selects it is made against the adjusted last
  height (\<open>last_gap + 1\<close> when a gap is reported, the last height of the chain
  otherwise). If the highest checkpoint is above that bound, the stop is that checkpoint.
  If it is not, the stop is the stored header at the bound. So the stop equals the highest
  checkpoint exactly when that checkpoint is above the bound or is itself the stored
  header at the bound.
\<close>

theorem checkpoint_stop:
  assumes "m_checkpoints s = m_checkpoints (session_header_sync_ctor hashes blockchain checkpoints)"
    and "checkpoints \<noteq> []"
    and "highest = last (m_checkpoints s)"
    and "get_range s a b = (success, seed, out_stop)"
    and "get_last_height (m_chain s) = Some tip"
    and "last_height = (case get_gap_range (m_chain s) of
                          Some (first_gap, last_gap) \<Rightarrow> last_gap + 1 | None \<Rightarrow> tip)"
  shows "highest \<in> set checkpoints
    \<and> (\<forall>c \<in> set checkpoints. height c \<le> height highest)
    \<and> (height highest > last_height \<longrightarrow> out_stop = highest)
    \<and> (\<not> height highest > last_height \<longrightarrow>
         (\<exists>last_header. get_header (m_chain s) last_height = Some last_header \<and>
            out_stop = \<lparr>hash = header_hash last_header, height = last_height\<rparr>))
    \<and> (out_stop = highest \<longleftrightarrow>
         height highest > last_height \<or>
         (\<exists>last_header. get_header (m_chain s) last_height = Some last_header \<and>
            highest = \<lparr>hash = header_hash last_header, height = last_height\<rparr>))"
proof -
  have cs: "m_checkpoints s = checkpoint_sort checkpoints"
    using assms(1) by (simp add: session_header_sync_ctor_def)
  have "length (m_checkpoints s) = length checkpoints"
    by (simp add: cs checkpoint_sort_def)
  with assms(2) have ne: "m_checkpoints s \<noteq> []"
    by auto
  have h1: "highest \<in> set checkpoints"
    using checkpoint_sort_last(1) [OF assms(2)] by (simp add: assms(3) cs)
  have h2: "\<forall>c \<in> set checkpoints. height c \<le> height highest"
    using checkpoint_sort_last(2) [OF assms(2)] by (simp add: assms(3) cs)
  from assms(4) obtain tip' fh lh first_header where
    t: "get_last_height (m_chain s) = Some tip'" and
    b: "range_bounds (m_chain s) tip' = (fh, lh)" and
    "get_header (m_chain s) fh = Some first_header" and
    stp: "if overrides s lh then out_stop = last (m_checkpoints s)
        else \<exists>last_header. get_header (m_chain s) lh = Some last_header \<and>
               out_stop = \<lparr>hash = header_hash last_header, height = lh\<rparr>"
    unfolding get_range_success by blast
  have "tip' = tip" using t assms(5) by simp
  with b assms(6) have lh: "lh = last_height"
    by (auto simp: range_bounds_def split: option.splits)
  have rest: "(height highest > last_height \<longrightarrow> out_stop = highest)
    \<and> (\<not> height highest > last_height \<longrightarrow>
         (\<exists>last_header. get_header (m_chain s) last_height = Some last_header \<and>
            out_stop = \<lparr>hash = header_hash last_header, height = last_height\<rparr>))
    \<and> (out_stop = highest \<longleftrightarrow>
         height highest > last_height \<or>
         (\<exists>last_header. get_header (m_chain s) last_height = Some last_header \<and>
            highest = \<lparr>hash = header_hash last_header, height = last_height\<rparr>))"
    using stp ne unfolding lh overrides_def assms(3)
    by (auto split: if_splits)
  from h1 h2 rest show ?thesis by blast
qed

text \<open>
  The configured list holds a checkpoint at 500 followed by one at 50. Above the gap 10
  to 20, and above a tip at 100 with no gap, the stop is the checkpoint at 500.
\<close>

theorem checkpoint_stop_witness:
  "last (m_checkpoints (session_header_sync_ctor [] tip_chain
      [\<lparr>hash = 5000, height = 500\<rparr>, \<lparr>hash = 6000, height = 50\<rparr>]))
     = \<lparr>hash = 5000, height = 500\<rparr> \<and>
   get_range (session_header_sync_ctor [] gap_chain
      [\<lparr>hash = 5000, height = 500\<rparr>, \<lparr>hash = 6000, height = 50\<rparr>]) null_checkpoint null_checkpoint
     = (success, \<lparr>hash = 1009, height = 9\<rparr>, \<lparr>hash = 5000, height = 500\<rparr>) \<and>
   get_range (session_header_sync_ctor [] tip_chain
      [\<lparr>hash = 5000, height = 500\<rparr>, \<lparr>hash = 6000, height = 50\<rparr>]) null_checkpoint null_checkpoint
     = (success, \<lparr>hash = 1100, height = 100\<rparr>, \<lparr>hash = 5000, height = 500\<rparr>) \<and>
   snd (snd (get_range (session_header_sync_ctor [] tip_chain
      [\<lparr>hash = 5000, height = 500\<rparr>, \<lparr>hash = 6000, height = 50\<rparr>])
      null_checkpoint null_checkpoint))
     = last (m_checkpoints (session_header_sync_ctor [] tip_chain
      [\<lparr>hash = 5000, height = 500\<rparr>, \<lparr>hash = 6000, height = 50\<rparr>]))"
proof -
  let ?cs = "[\<lparr>hash = 5000, height = 500\<rparr>, \<lparr>hash = 6000, height = 50\<rparr>] :: checkpoint list"
  let ?s = "session_header_sync_ctor [] gap_chain ?cs"
  let ?t = "session_header_sync_ctor [] tip_chain ?cs"
  have srt: "checkpoint_sort ?cs = [\<lparr>hash = 6000, height = 50\<rparr>, \<lparr>hash = 5000, height = 500\<rparr>]"
    by (simp add: checkpoint_sort_def)
  have ne: "?cs \<noteq> []" by simp
  have s1: "get_range ?s null_checkpoint null_checkpoint
     = (success, \<lparr>hash = 1009, height = 9\<rparr>, \<lparr>hash = 5000, height = 500\<rparr>)"
    by (simp add: get_range_def session_header_sync_ctor_def gap_chain_def srt)
  have t1: "get_range ?t null_checkpoint null_checkpoint
     = (success, \<lparr>hash = 1100, height = 100\<rparr>, \<lparr>hash = 5000, height = 500\<rparr>)"
    by (simp add: get_range_def session_header_sync_ctor_def tip_chain_def srt)
  have s3: "get_last_height (m_chain ?s) = Some 30"
    by (simp add: session_header_sync_ctor_def gap_chain_def)
  have t3: "get_last_height (m_chain ?t) = Some 100"
    by (simp add: session_header_sync_ctor_def tip_chain_def)
  have s4: "21 = (case get_gap_range (m_chain ?s) of
                          Some (first_gap, last_gap) \<Rightarrow> last_gap + 1 | None \<Rightarrow> 30)"
    by (simp add: session_header_sync_ctor_def gap_chain_def)
  have t4: "100 = (case get_gap_range (m_chain ?t) of
                          Some (first_gap, last_gap) \<Rightarrow> last_gap + 1 | None \<Rightarrow> 100)"
    by (simp add: session_header_sync_ctor_def tip_chain_def)
  have l: "last (m_checkpoints ?t) = \<lparr>hash = 5000, height = 500\<rparr>"
    by (simp add: session_header_sync_ctor_def srt)
  show ?thesis
    using checkpoint_stop [OF refl ne refl s1 s3 s4] checkpoint_stop [OF refl ne refl t1 t3 t4]
      s1 t1 l
    by simp
qed

text \<open>
  The claim as it was stated says that the stop equals the highest checkpoint exactly when
  the height of the checkpoint exceeds the adjusted bound. With the gap 10 to 20 and the
  highest of the two configured checkpoints being the stored header at 21, the stop equals
  that checkpoint although 21 does not exceed the bound 21.
\<close>

theorem checkpoint_stop_counterexample:
  "get_gap_range (m_chain (session_header_sync_ctor [] gap_chain
      [\<lparr>hash = 1021, height = 21\<rparr>, \<lparr>hash = 6000, height = 5\<rparr>])) = Some (10, 20) \<and>
   last (m_checkpoints (session_header_sync_ctor [] gap_chain
      [\<lparr>hash = 1021, height = 21\<rparr>, \<lparr>hash = 6000, height = 5\<rparr>]))
     = \<lparr>hash = 1021, height = 21\<rparr> \<and>
   get_range (session_header_sync_ctor [] gap_chain
      [\<lparr>hash = 1021, height = 21\<rparr>, \<lparr>hash = 6000, height = 5\<rparr>]) null_checkpoint null_checkpoint
     = (success, \<lparr>hash = 1009, height = 9\<rparr>, \<lparr>hash = 1021, height = 21\<rparr>) \<and>
   \<not> height \<lparr>hash = 1021, height = 21 :: size_t\<rparr> > 20 + 1"
proof -
  have srt: "checkpoint_sort [\<lparr>hash = 1021, height = 21\<rparr>, \<lparr>hash = 6000, height = 5\<rparr>]
      = [\<lparr>hash = 6000, height = 5\<rparr>, \<lparr>hash = 1021, height = 21\<rparr>]"
    by (simp add: checkpoint_sort_def)
  show ?thesis
    by (simp add: get_range_def session_header_sync_ctor_def gap_chain_def srt)
qed

text \<open>
  Claim C8. For every chain reader that is consistent in the sense of
  \<open>reader_consistent\<close>, every successful call of \<^verbatim>\<open>get_range\<close> returns a seed whose
  height is at most the height of the stop, and the two heights are equal exactly when
  seed and stop are the same checkpoint, which is the case that \<^verbatim>\<open>initialize\<close> treats as
  already synced. A gap that starts at height 0 makes \<open>first_gap - 1\<close> wrap around to
  \<open>2 ^ 64 - 1\<close>, where a consistent reader has no header, so that \<^verbatim>\<open>get_range\<close> returns
  \<^verbatim>\<open>not_found\<close>.
\<close>

lemma range_ordered_bounds:
  assumes "get_range s a b = (success, seed, out_stop)"
    and "\<And>tip. get_last_height (m_chain s) = Some tip \<Longrightarrow>
           fst (range_bounds (m_chain s) tip) \<le> snd (range_bounds (m_chain s) tip)"
  shows "height seed \<le> height out_stop \<and> (height seed = height out_stop \<longleftrightarrow> seed = out_stop)"
proof -
  from assms(1) obtain tip fh lh first_header where
    t: "get_last_height (m_chain s) = Some tip" and
    b: "range_bounds (m_chain s) tip = (fh, lh)" and
    fst: "get_header (m_chain s) fh = Some first_header" and
    seed: "seed = \<lparr>hash = header_hash first_header, height = fh\<rparr>" and
    stp: "if overrides s lh then out_stop = last (m_checkpoints s)
        else \<exists>last_header. get_header (m_chain s) lh = Some last_header \<and>
               out_stop = \<lparr>hash = header_hash last_header, height = lh\<rparr>"
    unfolding get_range_success by blast
  have le: "fh \<le> lh"
    using assms(2) [OF t] b by simp
  show ?thesis
  proof (cases "overrides s lh")
    case True
    then have "lh < height out_stop" using stp by (simp add: overrides_def)
    with le seed show ?thesis by auto
  next
    case False
    with stp obtain last_header where
      l: "get_header (m_chain s) lh = Some last_header"
         "out_stop = \<lparr>hash = header_hash last_header, height = lh\<rparr>" by auto
    show ?thesis using le seed l fst by auto
  qed
qed

theorem range_ordered:
  assumes "reader_consistent (m_chain s)"
    and "get_range s a b = (success, seed, out_stop)"
  shows "height seed \<le> height out_stop \<and> (height seed = height out_stop \<longleftrightarrow> seed = out_stop)"
proof (rule range_ordered_bounds [OF assms(2)])
  fix tip
  assume t: "get_last_height (m_chain s) = Some tip"
  from assms(2) obtain tip' fh first_header where
    "get_last_height (m_chain s) = Some tip'" and
    "range_bounds (m_chain s) tip' = (fh, snd (range_bounds (m_chain s) tip'))" and
    "get_header (m_chain s) fh = Some first_header"
    unfolding get_range_success by auto
  with t have h: "get_header (m_chain s) (fst (range_bounds (m_chain s) tip)) \<noteq> None"
    by (cases "range_bounds (m_chain s) tip") auto
  from assms(1) t have top: "tip < - 1"
    and stored: "\<And>h. get_header (m_chain s) h \<noteq> None \<Longrightarrow> h \<le> tip"
    and gap: "\<And>first_gap last_gap. get_gap_range (m_chain s) = Some (first_gap, last_gap)
        \<Longrightarrow> first_gap \<le> last_gap \<and> last_gap < tip"
    by (auto simp: reader_consistent_def)
  show "fst (range_bounds (m_chain s) tip) \<le> snd (range_bounds (m_chain s) tip)"
  proof (cases "get_gap_range (m_chain s)")
    case None
    then show ?thesis by (simp add: range_bounds_def)
  next
    case (Some g)
    obtain first_gap last_gap where g: "g = (first_gap, last_gap)" by (cases g)
    have b: "range_bounds (m_chain s) tip = (first_gap - 1, last_gap + 1)"
      using Some g by (simp add: range_bounds_def)
    from gap [OF Some [unfolded g]] have fl: "first_gap \<le> last_gap" and lt: "last_gap < tip"
      by simp_all
    from lt top have l1: "last_gap < - 1" by simp
    have "first_gap \<noteq> 0"
    proof
      assume "first_gap = 0"
      with h b have "get_header (m_chain s) (- 1) \<noteq> None" by simp
      then have "- 1 \<le> tip" by (rule stored)
      with top show False by simp
    qed
    then have "0 < first_gap" by (simp add: word_greater_zero_iff)
    then have "first_gap - 1 \<le> last_gap + 1"
      using fl l1 by (rule gap_well_formed)
    then show ?thesis by (simp add: b)
  qed
qed

text \<open>
  The chain with the gap 10 to 20 and the chain with the genesis header only are
  consistent; the first gives a seed below the stop, the second a seed equal to the stop.
  The chain whose headers 0 to 5 are missing is consistent too, and its range is not
  resolved.
\<close>

theorem range_ordered_witness:
  "reader_consistent (m_chain (session_header_sync_ctor [] gap_chain [])) \<and>
   reader_consistent (m_chain (session_header_sync_ctor [] genesis_chain [])) \<and>
   reader_consistent headless_chain \<and>
   get_range (session_header_sync_ctor [] gap_chain []) null_checkpoint null_checkpoint
     = (success, \<lparr>hash = 1009, height = 9\<rparr>, \<lparr>hash = 1021, height = 21\<rparr>) \<and>
   height \<lparr>hash = 1009, height = 9 :: size_t\<rparr> \<le> height \<lparr>hash = 1021, height = 21 :: size_t\<rparr> \<and>
   get_range (session_header_sync_ctor [] genesis_chain []) null_checkpoint null_checkpoint
     = (success, \<lparr>hash = 1000, height = 0\<rparr>, \<lparr>hash = 1000, height = 0\<rparr>) \<and>
   get_range (session_header_sync_ctor [] headless_chain []) null_checkpoint null_checkpoint
     = (not_found, null_checkpoint, null_checkpoint)"
proof -
  let ?s = "session_header_sync_ctor [] gap_chain []"
  let ?g = "session_header_sync_ctor [] genesis_chain []"
  have c1: "reader_consistent (m_chain ?s)"
    by (simp add: reader_consistent_def session_header_sync_ctor_def gap_chain_def)
  have c2: "reader_consistent (m_chain ?g)"
    by (simp add: reader_consistent_def session_header_sync_ctor_def genesis_chain_def
        word_greater_zero_iff)
  have c3: "reader_consistent headless_chain"
    by (simp add: reader_consistent_def headless_chain_def)
  have 1: "get_range ?s null_checkpoint null_checkpoint
     = (success, \<lparr>hash = 1009, height = 9\<rparr>, \<lparr>hash = 1021, height = 21\<rparr>)"
    by (simp add: get_range_def session_header_sync_ctor_def gap_chain_def checkpoint_sort_def)
  have 2: "get_range ?g null_checkpoint null_checkpoint
     = (success, \<lparr>hash = 1000, height = 0\<rparr>, \<lparr>hash = 1000, height = 0\<rparr>)"
    by (simp add: get_range_def session_header_sync_ctor_def genesis_chain_def checkpoint_sort_def)
  have top: "\<not> (- 1 :: size_t) \<le> 30"
    by (simp add: word_order.extremum_unique)
  have 3: "get_range (session_header_sync_ctor [] headless_chain []) null_checkpoint null_checkpoint
     = (not_found, null_checkpoint, null_checkpoint)"
    by (simp add: get_range_def session_header_sync_ctor_def headless_chain_def top)
  show ?thesis
    using range_ordered [OF c1 1] range_ordered [OF c2 2] c1 c2 c3 1 2 3 by simp
qed

section \<open>The claims about the start sequence\<close>

text \<open>
  Claim C5. When \<^verbatim>\<open>initialize\<close> finds the header queue not empty, it invokes the handler
  once, with \<^verbatim>\<open>operation_failed\<close>, and returns \<^verbatim>\<open>false\<close>; the queue is not
  initialised again, and the start makes no call of \<^verbatim>\<open>new_connection\<close>: whatever the
  network would answer, the handler call is the only event and the session is unchanged.
\<close>

theorem initialize_non_empty_queue:
  assumes "\<not> hashes_empty (m_hashes s)"
  shows "initialize s = (False, [Handler operation_failed], s) \<and>
         start success fresh script s = ([Handler operation_failed], s) \<and>
         handler_calls (fst (start success fresh script s)) = [operation_failed] \<and>
         connect_calls (fst (start success fresh script s)) = [] \<and>
         m_hashes (snd (start success fresh script s)) = m_hashes s"
  using assms
  by (simp add: initialize_def start_def handle_started_def failed_def)

theorem initialize_non_empty_queue_witness:
  "\<not> hashes_empty (m_hashes (session_header_sync_ctor [1009] gap_chain [])) \<and>
   initialize (session_header_sync_ctor [1009] gap_chain [])
     = (False, [Handler operation_failed], session_header_sync_ctor [1009] gap_chain []) \<and>
   start success 7 [download_success] (session_header_sync_ctor [1009] gap_chain [])
     = ([Handler operation_failed], session_header_sync_ctor [1009] gap_chain [])"
proof -
  have 1: "\<not> hashes_empty (m_hashes (session_header_sync_ctor [1009] gap_chain []))"
    by (simp add: hashes_empty_def session_header_sync_ctor_def)
  show ?thesis
    using initialize_non_empty_queue [OF 1, of 7 "[download_success]"] 1 by simp
qed

text \<open>
  Claim C6. When the queue is empty and \<^verbatim>\<open>get_range\<close> resolves a range whose seed equals
  its stop, the start invokes the handler with \<^verbatim>\<open>success\<close> and does nothing else: the
  queue is not initialised, no connector is created and no connection is attempted. The
  only change to the session is that \<^verbatim>\<open>last_\<close> holds the stop.
\<close>

theorem already_synced:
  assumes "hashes_empty (m_hashes s)"
    and "get_range s null_checkpoint (m_last s) = (success, seed, out_stop)"
    and "seed = out_stop"
  shows "initialize s = (False, [Handler success], s\<lparr>m_last := out_stop\<rparr>) \<and>
         start success fresh script s = ([Handler success], s\<lparr>m_last := out_stop\<rparr>) \<and>
         handler_calls (fst (start success fresh script s)) = [success] \<and>
         connect_calls (fst (start success fresh script s)) = [] \<and>
         m_hashes (snd (start success fresh script s)) = m_hashes s"
  using assms
  by (simp add: initialize_def start_def handle_started_def failed_def)

text \<open>
  The scenario of the specification: no checkpoints, last height 0, no gap, and the
  genesis header present.
\<close>

theorem already_synced_witness:
  "hashes_empty (m_hashes (session_header_sync_ctor [] genesis_chain [])) \<and>
   get_range (session_header_sync_ctor [] genesis_chain []) null_checkpoint
       (m_last (session_header_sync_ctor [] genesis_chain []))
     = (success, \<lparr>hash = 1000, height = 0\<rparr>, \<lparr>hash = 1000, height = 0\<rparr>) \<and>
   start success 7 [download_success] (session_header_sync_ctor [] genesis_chain [])
     = ([Handler success],
        (session_header_sync_ctor [] genesis_chain [])\<lparr>m_last := \<lparr>hash = 1000, height = 0\<rparr>\<rparr>)"
proof -
  let ?s = "session_header_sync_ctor [] genesis_chain []"
  have 1: "hashes_empty (m_hashes ?s)"
    by (simp add: hashes_empty_def session_header_sync_ctor_def)
  have 2: "get_range ?s null_checkpoint (m_last ?s)
     = (success, \<lparr>hash = 1000, height = 0\<rparr>, \<lparr>hash = 1000, height = 0\<rparr>)"
    by (simp add: get_range_def session_header_sync_ctor_def genesis_chain_def checkpoint_sort_def)
  show ?thesis
    using already_synced [OF 1 2 refl, of 7 "[download_success]"] 1 2 by simp
qed

section \<open>The claims about the retry loop\<close>

text \<open>
  Claim C1. A completion of the download with a failure code backs the minimum rate off
  and calls \<^verbatim>\<open>new_connection\<close> with the same connector instead of the handler. The new
  rate is never above the old one, it is below it unless the old one is 0, and for every
  rate up to the initial 10000 it is the old rate times 0.75, rounded down. A completion
  with \<^verbatim>\<open>success\<close> invokes the handler with it, and no other code ever reaches the
  handler from the loop. A connect failure calls \<^verbatim>\<open>new_connection\<close> with the same
  connector and nothing else, and every connect of the loop is made with that connector.
  If \<^verbatim>\<open>initialize\<close> lets the session proceed, the first \<open>N\<close> attempts fail (at the
  connect, the channel start or the download) and the next one succeeds, then the handler
  is invoked exactly once, with \<^verbatim>\<open>success\<close>, as the last event, after exactly \<open>N + 1\<close>
  connects.
\<close>

theorem retry_until_success:
  "(failed ec \<longrightarrow>
      handle_complete ec connect script s =
        new_connection connect script (s\<lparr>m_minimum_rate := back_off (m_minimum_rate s)\<rparr>)) \<and>
   back_off (m_minimum_rate s) \<le> m_minimum_rate s \<and>
   (0 < m_minimum_rate s \<longrightarrow> back_off (m_minimum_rate s) < m_minimum_rate s) \<and>
   (m_minimum_rate s \<le> headers_per_second \<longrightarrow>
      int (unat (back_off (m_minimum_rate s)))
        = \<lfloor>real (unat (m_minimum_rate s)) * back_off_factor\<rfloor>) \<and>
   (\<not> failed ec \<longrightarrow> handle_complete ec connect script s = ([Handler ec], s)) \<and>
   set (handler_calls (fst (handle_complete ec connect script s))) \<subseteq> {success} \<and>
   (failed ec \<longrightarrow>
      handle_connect ec channel connect a script s = new_connection connect script s) \<and>
   set (connect_calls (fst (new_connection connect script s))) \<subseteq> {connect} \<and>
   set (handler_calls (fst (new_connection connect script s))) \<subseteq> {success} \<and>
   ((\<forall>x \<in> set fails. attempt_fails x) \<and> attempt_succeeds ok \<and> initialize s = (True, evs, s1) \<longrightarrow>
      handler_calls (fst (start success connect (fails @ ok # rest) s)) = [success] \<and>
      connect_calls (fst (start success connect (fails @ ok # rest) s))
        = replicate (length fails + 1) connect \<and>
      last (fst (start success connect (fails @ ok # rest) s)) = Handler success)"
proof -
  have 1: "failed ec \<longrightarrow>
      handle_complete ec connect script s =
        new_connection connect script (s\<lparr>m_minimum_rate := back_off (m_minimum_rate s)\<rparr>)"
    by (simp add: handle_complete_eq decay_def)
  note d1 = back_off_le(1) [of "m_minimum_rate s"]
  have d2: "0 < m_minimum_rate s \<longrightarrow> back_off (m_minimum_rate s) < m_minimum_rate s"
    using back_off_le(2) [of "m_minimum_rate s"] by simp
  have d3: "m_minimum_rate s \<le> headers_per_second \<longrightarrow>
      int (unat (back_off (m_minimum_rate s)))
        = \<lfloor>real (unat (m_minimum_rate s)) * back_off_factor\<rfloor>"
    by (rule impI) (rule back_off_floor)
  have 2: "\<not> failed ec \<longrightarrow> handle_complete ec connect script s = ([Handler ec], s)"
    by (simp add: handle_complete_eq)
  have 3: "set (handler_calls (fst (handle_complete ec connect script s))) \<subseteq> {success}"
    using new_connection_calls [of connect script "decay s"]
    by (simp add: handle_complete_eq failed_def)
  have 4: "failed ec \<longrightarrow>
      handle_connect ec channel connect a script s = new_connection connect script s"
    by (simp add: handle_connect.simps)
  note 5 = new_connection_calls [of connect script s]
  have 6: "handler_calls (fst (start success connect (fails @ ok # rest) s)) = [success] \<and>
      connect_calls (fst (start success connect (fails @ ok # rest) s))
        = replicate (length fails + 1) connect \<and>
      last (fst (start success connect (fails @ ok # rest) s)) = Handler success"
    if f: "\<forall>x \<in> set fails. attempt_fails x" and o: "attempt_succeeds ok"
      and i: "initialize s = (True, evs, s1)"
  proof -
    obtain seed where evs: "evs = [Hashes_initialize seed]"
      using initialize_True [OF i] by blast
    note loop = new_connection_fails [OF f o, of connect rest s1]
    then have ne: "fst (new_connection connect (fails @ ok # rest) s1) \<noteq> []" by auto
    show ?thesis
      using loop ne
      by (auto simp add: start_def handle_started_def i evs failed_def split: prod.splits)
  qed
  from 1 d1 d2 d3 2 3 4 5 6 show ?thesis by blast
qed

lemma initialize_gap_chain:
  "initialize (session_header_sync_ctor [] gap_chain []) =
     (True, [Hashes_initialize \<lparr>hash = 1009, height = 9\<rparr>],
      (session_header_sync_ctor [] gap_chain [])
        \<lparr>m_hashes := [1009], m_last := \<lparr>hash = 1021, height = 21\<rparr>\<rparr>)"
  by (simp add: initialize_def get_range_def session_header_sync_ctor_def gap_chain_def
      checkpoint_sort_def hashes_empty_def hashes_initialize_def failed_def null_checkpoint_def)

text \<open>
  Two connect failures and a failed download before a successful attempt: four connects
  and one handler call. A failed download with no further answer from the network: the
  rate goes from 10000 to 7500 and the next connect is made.
\<close>

theorem retry_until_success_witness:
  "attempt_fails connect_failure \<and> attempt_fails download_failure \<and>
   attempt_succeeds download_success \<and>
   fst (initialize (session_header_sync_ctor [] gap_chain [])) \<and>
   handler_calls (fst (start success 7 ([connect_failure, download_failure, connect_failure]
      @ download_success # [download_failure]) (session_header_sync_ctor [] gap_chain [])))
     = [success] \<and>
   connect_calls (fst (start success 7 ([connect_failure, download_failure, connect_failure]
      @ download_success # [download_failure]) (session_header_sync_ctor [] gap_chain [])))
     = [7, 7, 7, 7] \<and>
   failed channel_timeout \<and>
   0 < m_minimum_rate (session_header_sync_ctor [] gap_chain []) \<and>
   m_minimum_rate (session_header_sync_ctor [] gap_chain []) \<le> headers_per_second \<and>
   back_off (m_minimum_rate (session_header_sync_ctor [] gap_chain []))
     < m_minimum_rate (session_header_sync_ctor [] gap_chain []) \<and>
   int (unat (back_off (m_minimum_rate (session_header_sync_ctor [] gap_chain [])))) = 7500 \<and>
   handle_complete channel_timeout 7 [] (session_header_sync_ctor [] gap_chain [])
     = ([Connect 7], (session_header_sync_ctor [] gap_chain [])\<lparr>m_minimum_rate := 7500\<rparr>)"
proof -
  let ?s = "session_header_sync_ctor [] gap_chain []"
  let ?fails = "[connect_failure, download_failure, connect_failure]"
  have f1: "attempt_fails connect_failure" and f2: "attempt_fails download_failure"
    and ok: "attempt_succeeds download_success"
    by (simp_all add: attempt_fails_def attempt_succeeds_def connect_failure_def
        download_failure_def download_success_def failed_def)
  have fails: "\<forall>x \<in> set ?fails. attempt_fails x"
    using f1 f2 by simp
  have ft: "failed channel_timeout" by (simp add: failed_def)
  have m: "m_minimum_rate ?s = 10000"
    by (simp add: session_header_sync_ctor_def headers_per_second_def)
  have pos: "0 < m_minimum_rate ?s" and le: "m_minimum_rate ?s \<le> headers_per_second"
    by (simp_all add: m headers_per_second_def)
  note th = retry_until_success [of channel_timeout 7 "[]" ?s example_channel download_success
      ?fails download_success _ _ "[download_failure]"]
  have a: "handler_calls (fst (start success 7 (?fails @ download_success # [download_failure]) ?s))
       = [success] \<and>
     connect_calls (fst (start success 7 (?fails @ download_success # [download_failure]) ?s))
       = replicate (length ?fails + 1) 7 \<and>
     last (fst (start success 7 (?fails @ download_success # [download_failure]) ?s))
       = Handler success"
    using th fails ok initialize_gap_chain by blast
  have b: "handle_complete channel_timeout 7 [] ?s
     = new_connection 7 [] (?s\<lparr>m_minimum_rate := back_off (m_minimum_rate ?s)\<rparr>)"
    using th ft by blast
  have lt: "back_off (m_minimum_rate ?s) < m_minimum_rate ?s"
    using th pos by blast
  have "int (unat (back_off (m_minimum_rate ?s)))
      = \<lfloor>real (unat (m_minimum_rate ?s)) * back_off_factor\<rfloor>"
    using th le by blast
  then have fl: "int (unat (back_off (m_minimum_rate ?s))) = 7500"
    by (simp add: m back_off_factor_def)
  have r: "back_off (m_minimum_rate ?s) = 7500"
    by (simp add: m back_off_def round_to_float_def)
  have c: "replicate (length ?fails + 1) (7::nat) = [7, 7, 7, 7]"
    by (simp add: numeral_eq_Suc)
  show ?thesis
    using f1 f2 ok ft pos le lt fl a [unfolded c] b [unfolded r]
    by (simp add: initialize_gap_chain)
qed

text \<open>
  Claim C9, as amended. A failure of the channel start is treated as a failure of the
  download is: \<^verbatim>\<open>handle_channel_start\<close> passes the code to \<^verbatim>\<open>handle_complete\<close>, which
  backs the minimum rate off and calls \<^verbatim>\<open>new_connection\<close> with the same connector. The
  new rate is never above the old one, it is below it unless the old one is 0, and for
  every rate up to the initial 10000 it is the old rate times 0.75, rounded down. A
  connect failure reaches \<^verbatim>\<open>new_connection\<close> with the same connector too, but with the
  session, and so the rate, as it was. Neither produces a handler call with an error.
\<close>

theorem channel_start_failure:
  assumes "failed ec"
  shows "handle_channel_start ec connect channel a script s = handle_complete ec connect script s \<and>
     handle_channel_start ec connect channel a script s =
       new_connection connect script (s\<lparr>m_minimum_rate := back_off (m_minimum_rate s)\<rparr>) \<and>
     back_off (m_minimum_rate s) \<le> m_minimum_rate s \<and>
     (0 < m_minimum_rate s \<longrightarrow> back_off (m_minimum_rate s) < m_minimum_rate s) \<and>
     (m_minimum_rate s \<le> headers_per_second \<longrightarrow>
        int (unat (back_off (m_minimum_rate s)))
          = \<lfloor>real (unat (m_minimum_rate s)) * back_off_factor\<rfloor>) \<and>
     handle_connect ec channel connect a script s = new_connection connect script s \<and>
     set (handler_calls (fst (handle_channel_start ec connect channel a script s))) \<subseteq> {success} \<and>
     set (connect_calls (fst (handle_channel_start ec connect channel a script s))) \<subseteq> {connect}"
proof -
  have d2: "0 < m_minimum_rate s \<longrightarrow> back_off (m_minimum_rate s) < m_minimum_rate s"
    using back_off_le(2) [of "m_minimum_rate s"] by simp
  have d3: "m_minimum_rate s \<le> headers_per_second \<longrightarrow>
      int (unat (back_off (m_minimum_rate s)))
        = \<lfloor>real (unat (m_minimum_rate s)) * back_off_factor\<rfloor>"
    by (rule impI) (rule back_off_floor)
  show ?thesis
    using assms new_connection_calls [of connect script "decay s"]
      back_off_le(1) [of "m_minimum_rate s"] d2 d3
    by (simp add: handle_channel_start.simps handle_connect.simps handle_complete_eq decay_def)
qed

theorem channel_start_failure_witness:
  "failed channel_timeout \<and>
   0 < m_minimum_rate (session_header_sync_ctor [] gap_chain []) \<and>
   m_minimum_rate (session_header_sync_ctor [] gap_chain []) \<le> headers_per_second \<and>
   back_off (m_minimum_rate (session_header_sync_ctor [] gap_chain []))
     < m_minimum_rate (session_header_sync_ctor [] gap_chain []) \<and>
   int (unat (back_off (m_minimum_rate (session_header_sync_ctor [] gap_chain [])))) = 7500 \<and>
   handle_channel_start channel_timeout 7 example_channel download_success [download_success]
      (session_header_sync_ctor [] gap_chain [])
     = ([Connect 7, Register_channel example_channel, Attach_ping_60001 example_channel,
         Attach_address_31402 example_channel,
         Attach_header_sync example_channel 7500 null_checkpoint, Handler success],
        (session_header_sync_ctor [] gap_chain [])\<lparr>m_minimum_rate := 7500\<rparr>)"
proof -
  let ?s = "session_header_sync_ctor [] gap_chain []"
  have 1: "failed channel_timeout" by (simp add: failed_def)
  have m: "m_minimum_rate ?s = 10000"
    by (simp add: session_header_sync_ctor_def headers_per_second_def)
  have pos: "0 < m_minimum_rate ?s" and le: "m_minimum_rate ?s \<le> headers_per_second"
    by (simp_all add: m headers_per_second_def)
  note th = channel_start_failure [OF 1, of 7 example_channel download_success
      "[download_success]" ?s]
  have lt: "back_off (m_minimum_rate ?s) < m_minimum_rate ?s"
    using th pos by blast
  have "int (unat (back_off (m_minimum_rate ?s)))
      = \<lfloor>real (unat (m_minimum_rate ?s)) * back_off_factor\<rfloor>"
    using th le by blast
  then have fl: "int (unat (back_off (m_minimum_rate ?s))) = 7500"
    by (simp add: m back_off_factor_def)
  have 2: "back_off (m_minimum_rate ?s) = 7500"
    by (simp add: m back_off_def round_to_float_def)
  have 3: "new_connection 7 [download_success] (?s\<lparr>m_minimum_rate := 7500\<rparr>)
     = ([Connect 7, Register_channel example_channel, Attach_ping_60001 example_channel,
         Attach_address_31402 example_channel,
         Attach_header_sync example_channel 7500 null_checkpoint, Handler success],
        ?s\<lparr>m_minimum_rate := 7500\<rparr>)"
    by (simp add: new_connection_step download_success_def failed_def attach_events_def
        example_channel_def level_bip31_def session_header_sync_ctor_def)
  have 4: "handle_channel_start channel_timeout 7 example_channel download_success
      [download_success] ?s
    = new_connection 7 [download_success] (?s\<lparr>m_minimum_rate := back_off (m_minimum_rate ?s)\<rparr>)"
    using th by blast
  show ?thesis
    unfolding 4 2 3 using 1 pos le lt [unfolded 2] fl [unfolded 2] by (simp add: 2)
qed

text \<open>
  The claim as it was stated says that a failed channel start is treated identically to a
  connection failure. From the same session, and with no further answer from the network,
  both make the next connect, but the first leaves the minimum rate at 7500 and the
  second at 10000.
\<close>

theorem channel_start_failure_counterexample:
  "handle_channel_start channel_timeout 7 example_channel download_success []
      (session_header_sync_ctor [] gap_chain [])
     = ([Connect 7], (session_header_sync_ctor [] gap_chain [])\<lparr>m_minimum_rate := 7500\<rparr>) \<and>
   handle_connect channel_timeout example_channel 7 download_success []
      (session_header_sync_ctor [] gap_chain [])
     = ([Connect 7], session_header_sync_ctor [] gap_chain []) \<and>
   m_minimum_rate (session_header_sync_ctor [] gap_chain []) = 10000 \<and>
   handle_channel_start channel_timeout 7 example_channel download_success []
      (session_header_sync_ctor [] gap_chain [])
   \<noteq> handle_connect channel_timeout example_channel 7 download_success []
      (session_header_sync_ctor [] gap_chain [])"
proof -
  let ?s = "session_header_sync_ctor [] gap_chain []"
  have 1: "handle_channel_start channel_timeout 7 example_channel download_success [] ?s
      = ([Connect 7], ?s\<lparr>m_minimum_rate := 7500\<rparr>)"
    by (simp add: handle_channel_start.simps handle_complete_eq failed_def decay_def
        session_header_sync_ctor_def headers_per_second_def back_off_def round_to_float_def)
  have 2: "handle_connect channel_timeout example_channel 7 download_success [] ?s
      = ([Connect 7], ?s)"
    by (simp add: handle_connect.simps failed_def)
  have 3: "m_minimum_rate ?s = 10000"
    by (simp add: session_header_sync_ctor_def headers_per_second_def)
  have 4: "?s\<lparr>m_minimum_rate := 7500\<rparr> \<noteq> ?s"
  proof
    assume "?s\<lparr>m_minimum_rate := 7500\<rparr> = ?s"
    then have "m_minimum_rate (?s\<lparr>m_minimum_rate := 7500\<rparr>) = m_minimum_rate ?s" by simp
    then show False by (simp add: 3)
  qed
  show ?thesis
    unfolding 1 2 using 3 4 by simp
qed

section \<open>The claim about the minimum rate\<close>

text \<open>
  Claim C2, as amended. After \<open>k\<close> consecutive failed downloads of a session that began
  at 10000 the minimum rate is \<open>rate_after k\<close>: each failure replaces the rate by its
  product with 0.75 truncated to an integer. So the rate after \<open>k\<close> failures is at most
  \<open>10000 * 0.75 ^ k\<close> (7500 after one failure and 5625 after two), it never increases,
  and it decreases strictly at every failure as long as it is positive. The rate is never
  increased during a session: from every state and whatever the network answers, the
  rate at the end of the loop, or of the start sequence, is not above the rate at its
  beginning, every rate handed to the header sync protocol is at most that rate, and
  each is at most the one handed over before it.
\<close>

theorem rate_decay:
  assumes "\<forall>a \<in> set script. download_fails a"
    and "m_minimum_rate s = headers_per_second"
  shows "m_minimum_rate (snd (new_connection connect script s)) = rate_after (length script) \<and>
    rate_after 0 = 10000 \<and> rate_after 1 = 7500 \<and> rate_after 2 = 5625 \<and>
    int (unat (rate_after (Suc k))) = \<lfloor>real (unat (rate_after k)) * back_off_factor\<rfloor> \<and>
    real (unat (rate_after k)) \<le> real (unat headers_per_second) * back_off_factor ^ k \<and>
    rate_after (Suc k) \<le> rate_after k \<and>
    (0 < rate_after k \<longrightarrow> rate_after (Suc k) < rate_after k) \<and>
    back_off_factor < 1 \<and>
    m_minimum_rate (snd (new_connection any_connect any_script any_s)) \<le> m_minimum_rate any_s \<and>
    m_minimum_rate (snd (start any_ec any_connect any_script any_s)) \<le> m_minimum_rate any_s \<and>
    sorted (rev (attach_rates (fst (new_connection any_connect any_script any_s)))) \<and>
    (\<forall>r \<in> set (attach_rates (fst (new_connection any_connect any_script any_s))).
        r \<le> m_minimum_rate any_s)"
proof -
  have 1: "m_minimum_rate (snd (new_connection connect script s)) = rate_after (length script)"
    using new_connection_download_fails [OF assms(1), of connect s] assms(2)
    by (simp add: rate_after_def)
  have b: "back_off 10000 = 7500" "back_off 7500 = 5625"
    by (simp_all add: back_off_def round_to_float_def)
  have 2: "rate_after 0 = 10000 \<and> rate_after 1 = 7500 \<and> rate_after 2 = 5625"
    by (simp add: rate_after_def headers_per_second_def numeral_2_eq_2 b)
  have "\<lfloor>real (3 * unat (rate_after k)) / real 4\<rfloor> = int (3 * unat (rate_after k) div 4)"
    by (rule floor_divide_of_nat_eq)
  then have 3: "int (unat (rate_after (Suc k))) = \<lfloor>real (unat (rate_after k)) * back_off_factor\<rfloor>"
    by (simp add: rate_after_Suc back_off_factor_def mult.commute)
  note 4 = rate_after_bound [of k]
  have 5: "rate_after (Suc k) \<le> rate_after k"
    using back_off_le(1) [of "rate_after k"] by (simp add: rate_after_def)
  have 6: "0 < rate_after k \<longrightarrow> rate_after (Suc k) < rate_after k"
    using back_off_le(2) [of "rate_after k"] by (simp add: rate_after_def)
  have 7: "back_off_factor < 1" by (simp add: back_off_factor_def)
  note 8 = new_connection_rate_le [of any_connect any_script any_s]
  note 9 = start_rate_le [of any_ec any_connect any_script any_s]
  note 10 = new_connection_attach_rates [of any_connect any_script any_s]
  from 1 2 3 4 5 6 7 8 9 10 show ?thesis by blast
qed

lemma rate_after_values:
  "rate_after 3 = 4218" "rate_after 30 = 0" "rate_after 31 = 0"
proof -
  have s: "back_off 10000 = 7500" "back_off 7500 = 5625" "back_off 5625 = 4218"
    "back_off 4218 = 3163" "back_off 3163 = 2372" "back_off 2372 = 1779" "back_off 1779 = 1334"
    "back_off 1334 = 1000" "back_off 1000 = 750" "back_off 750 = 562" "back_off 562 = 421"
    "back_off 421 = 315" "back_off 315 = 236" "back_off 236 = 177" "back_off 177 = 132"
    "back_off 132 = 99" "back_off 99 = 74" "back_off 74 = 55" "back_off 55 = 41"
    "back_off 41 = 30" "back_off 30 = 22" "back_off 22 = 16" "back_off 16 = 12"
    "back_off 12 = 9" "back_off 9 = 6" "back_off 6 = 4" "back_off 4 = 3" "back_off 3 = 2"
    "back_off 2 = 1" "back_off 1 = 0" "back_off 0 = 0"
    by (simp_all add: back_off_def round_to_float_def)
  show "rate_after 3 = 4218"
    by (simp add: rate_after_def headers_per_second_def numeral_eq_Suc s)
  show "rate_after 30 = 0"
    by (simp add: rate_after_def headers_per_second_def numeral_eq_Suc s)
  show "rate_after 31 = 0"
    by (simp add: rate_after_def headers_per_second_def numeral_eq_Suc s)
qed

text \<open>
  Two failed downloads from the rate 10000: the protocol is handed 10000 and then 7500,
  and the rate is left at 5625. A connect failure in a session whose rate is 7500 leaves
  it at 7500.
\<close>

theorem rate_decay_witness:
  "download_fails download_failure \<and>
   m_minimum_rate (session_header_sync_ctor [] gap_chain []) = headers_per_second \<and>
   m_minimum_rate (snd (new_connection 7 [download_failure, download_failure]
      (session_header_sync_ctor [] gap_chain []))) = 5625 \<and>
   attach_rates (fst (new_connection 7 [download_failure, download_failure]
      (session_header_sync_ctor [] gap_chain []))) = [10000, 7500] \<and>
   rate_after 3 < rate_after 2 \<and>
   m_minimum_rate (snd (new_connection 7 [connect_failure]
      ((session_header_sync_ctor [] gap_chain [])\<lparr>m_minimum_rate := 7500\<rparr>))) = 7500"
proof -
  let ?s = "session_header_sync_ctor [] gap_chain []"
  have d: "download_fails download_failure"
    by (simp add: download_fails_def download_failure_def download_success_def failed_def)
  then have 1: "\<forall>a \<in> set [download_failure, download_failure]. download_fails a" by simp
  have 2: "m_minimum_rate ?s = headers_per_second"
    by (simp add: session_header_sync_ctor_def)
  note th = rate_decay [OF 1 2, of 7 2 7 "[connect_failure]" "?s\<lparr>m_minimum_rate := 7500\<rparr>"]
  have a0: "m_minimum_rate (snd (new_connection 7 [download_failure, download_failure] ?s))
      = rate_after (length [download_failure, download_failure])"
    using th by blast
  have v: "rate_after 2 = 5625"
    using th by blast
  have i: "0 < rate_after 2 \<longrightarrow> rate_after (Suc 2) < rate_after 2"
    using th by blast
  have a: "m_minimum_rate (snd (new_connection 7 [download_failure, download_failure] ?s)) = 5625"
    using a0 v by (simp add: numeral_2_eq_2)
  have b: "rate_after 3 < rate_after 2"
    using i v by simp
  have bo: "back_off 10000 = 7500" "back_off 7500 = 5625"
    by (simp_all add: back_off_def round_to_float_def)
  have r: "attach_rates (fst (new_connection 7 [download_failure, download_failure] ?s))
      = [10000, 7500]"
    by (simp add: new_connection_step download_failure_def download_success_def failed_def
        decay_def session_header_sync_ctor_def headers_per_second_def bo split: prod.splits)
  have c: "m_minimum_rate (snd (new_connection 7 [connect_failure]
      (?s\<lparr>m_minimum_rate := 7500\<rparr>))) = 7500"
    by (simp add: new_connection_step connect_failure_def download_success_def failed_def)
  show ?thesis using d 2 a b r c by simp
qed

text \<open>
  The claim as it was stated gives the rate after \<open>k\<close> failures as \<open>10000 * 0.75 ^ k\<close>
  and strictly decreasing. After three failed downloads the rate is 4218 and not
  4218.75; after 30 failed downloads it is 0 and the next failure leaves it at 0.
\<close>

theorem rate_decay_counterexample:
  "m_minimum_rate (snd (new_connection 7 (replicate 3 download_failure)
      (session_header_sync_ctor [] gap_chain []))) = 4218 \<and>
   real (unat (4218 :: uint32_t)) \<noteq> real (unat headers_per_second) * back_off_factor ^ 3 \<and>
   m_minimum_rate (snd (new_connection 7 (replicate 30 download_failure)
      (session_header_sync_ctor [] gap_chain []))) = 0 \<and>
   m_minimum_rate (snd (new_connection 7 (replicate 31 download_failure)
      (session_header_sync_ctor [] gap_chain []))) = 0"
proof -
  let ?s = "session_header_sync_ctor [] gap_chain []"
  have d: "download_fails download_failure"
    by (simp add: download_fails_def download_failure_def download_success_def failed_def)
  have r: "m_minimum_rate (snd (new_connection 7 (replicate n download_failure) ?s)) = rate_after n"
    for n
    using new_connection_download_fails [of "replicate n download_failure" 7 ?s] d
    by (simp add: rate_after_def session_header_sync_ctor_def)
  have "real (unat (4218 :: uint32_t)) \<noteq> real (unat headers_per_second) * back_off_factor ^ 3"
    by (simp add: headers_per_second_def back_off_factor_def power3_eq_cube)
  then show ?thesis
    by (simp add: r rate_after_values)
qed

section \<open>The claim about the stop signal\<close>

text \<open>
  Claim C7. The first call of \<^verbatim>\<open>stop\<close> records its code; every later call, with
  whatever code, leaves the state as it is; and after any further calls a wait on the
  promise returns the code of the first call.
\<close>

theorem stop_first_call_wins:
  "wait (stop ec executor_initial) = Some ec \<and>
   stop ec' (stop ec executor_initial) = stop ec executor_initial \<and>
   fold stop ecs (stop ec executor_initial) = stop ec executor_initial \<and>
   wait (fold stop (ec # ecs) executor_initial) = Some ec"
proof -
  have idem: "fold stop xs e = e" if "stop_mutex e" for xs e
    using that by (induction xs) (simp_all add: stop_def)
  have m: "stop_mutex (stop ec executor_initial)"
    by (simp add: stop_def executor_initial_def)
  have w: "wait (stop ec executor_initial) = Some ec"
    by (simp add: stop_def executor_initial_def wait_def)
  have o: "stop ec' (stop ec executor_initial) = stop ec executor_initial"
    using m by (simp add: stop_def)
  show ?thesis
    using idem [OF m] w o by simp
qed

text \<open>
  Before any call the wait blocks. A server stop followed by the signal handler leaves the
  code of the server stop.
\<close>

theorem stop_first_call_wins_witness:
  "wait executor_initial = None \<and>
   wait (fold stop [operation_failed, success, service_stopped] executor_initial)
     = Some operation_failed \<and>
   wait (handle_stop 2 (handle_stopped service_stopped executor_initial)) = Some service_stopped"
proof -
  have 1: "wait executor_initial = None"
    by (simp add: wait_def executor_initial_def)
  have 2: "handle_stop 2 (handle_stopped service_stopped executor_initial)
    = stop success (stop service_stopped executor_initial)"
    by (simp add: handle_stop_def handle_stopped_def initialize_stop_def)
  have 3: "wait (fold stop (operation_failed # [success, service_stopped]) executor_initial)
    = Some operation_failed"
    by (rule stop_first_call_wins [THEN conjunct2, THEN conjunct2, THEN conjunct2])
  have 4: "wait (stop success (stop service_stopped executor_initial)) = Some service_stopped"
    using stop_first_call_wins [of service_stopped success "[]"] by simp
  show ?thesis
    unfolding 2 using 1 3 4 by simp
qed

end
